theory Spec2Isabelle
  imports Main "HOL-Library.Sublist"
begin

section \<open>Python strings\<close>

text \<open>
  A Python \<open>str\<close> is modelled as a \<open>string\<close>; a \<open>char\<close> stands for the code point of the
  same number, so the model covers the strings whose code points are below 256.
  \<open>isspace\<close> lists the code points below 256 that \<open>str.strip()\<close> removes, and
  \<open>lower_char\<close> is \<open>str.lower()\<close> on one such code point.
\<close>

definition isspace :: "char \<Rightarrow> bool" where
  "isspace c = (c \<in> set [CHR 0x09, CHR 0x0A, CHR 0x0B, CHR 0x0C, CHR 0x0D,
                         CHR 0x1C, CHR 0x1D, CHR 0x1E, CHR 0x1F, CHR 0x20,
                         CHR 0x85, CHR 0xA0])"

definition lstrip :: "string \<Rightarrow> string" where
  "lstrip s = dropWhile isspace s"

definition rstrip :: "string \<Rightarrow> string" where
  "rstrip s = rev (dropWhile isspace (rev s))"

definition strip :: "string \<Rightarrow> string" where
  "strip s = rstrip (lstrip s)"

definition is_upper :: "char \<Rightarrow> bool" where
  "is_upper c = (let n = (of_char c :: nat)
                 in (65 \<le> n \<and> n \<le> 90) \<or> (192 \<le> n \<and> n \<le> 222 \<and> n \<noteq> 215))"

definition lower_char :: "char \<Rightarrow> char" where
  "lower_char c = (if is_upper c then char_of (of_char c + (32::nat)) else c)"

definition lower :: "string \<Rightarrow> string" where
  "lower s = map lower_char s"

section \<open>Sheet names (Github-app.py, sanitize_sheet_name)\<close>

definition invalid_sheet_char :: "char \<Rightarrow> bool" where
  "invalid_sheet_char c =
     (c \<in> set [CHR '':'', CHR 0x5C, CHR ''/'', CHR ''?'', CHR ''*'', CHR ''['', CHR '']''])"

text \<open>\<open>re.sub(r'[:\\/?*\[\]]', '-', name)\<close>: every character of the class becomes a dash.\<close>

definition re_sub_invalid :: "string \<Rightarrow> string" where
  "re_sub_invalid s = map (\<lambda>c. if invalid_sheet_char c then CHR ''-'' else c) s"

definition sanitize_sheet_name :: "string \<Rightarrow> string" where
  "sanitize_sheet_name name =
     (let name1 = re_sub_invalid name;
          name2 = take 31 (strip name1)
      in if name2 \<noteq> [] then name2 else ''sheet'')"

section \<open>Python errors\<close>

datatype py_error = ValueError | KeyError | ReError | FileNotFoundError | Unmodelled

definition bind_e :: "py_error + 'a \<Rightarrow> ('a \<Rightarrow> py_error + 'b) \<Rightarrow> py_error + 'b" where
  "bind_e m f = (case m of Inl e \<Rightarrow> Inl e | Inr x \<Rightarrow> f x)"

section \<open>Parsed documents (BeautifulSoup)\<close>

text \<open>
  A parsed document is a tree of tags; \<open>Text\<close> is a string that \<open>get_text\<close> returns and
  \<open>Comment\<close> one that it skips (comments, declarations). The document itself is a tag.
  \<open>descendants\<close> lists the nodes below a tag in document order, as \<open>find_all\<close> and
  \<open>get_text\<close> visit them.
\<close>

datatype node = Text string | Comment string | Tag string "node list"

fun descendants :: "node \<Rightarrow> node list" where
  "descendants (Tag n cs) = concat (map (\<lambda>c. c # descendants c) cs)"
| "descendants (Text s) = []"
| "descendants (Comment s) = []"

definition is_tag_in :: "string list \<Rightarrow> node \<Rightarrow> bool" where
  "is_tag_in names x = (case x of Tag n cs \<Rightarrow> n \<in> set names | _ \<Rightarrow> False)"

definition find_all :: "string list \<Rightarrow> node \<Rightarrow> node list" where
  "find_all names t = filter (is_tag_in names) (descendants t)"

definition all_strings :: "bool \<Rightarrow> node \<Rightarrow> string list" where
  "all_strings strp t =
     concat (map (\<lambda>d. case d of
                        Text s \<Rightarrow> (if strp then (if strip s = [] then [] else [strip s]) else [s])
                      | _ \<Rightarrow> [])
                 (descendants t))"

fun join :: "string \<Rightarrow> string list \<Rightarrow> string" where
  "join sep [] = []"
| "join sep [x] = x"
| "join sep (x # y # ys) = x @ sep @ join sep (y # ys)"

definition get_text :: "string \<Rightarrow> bool \<Rightarrow> node \<Rightarrow> string" where
  "get_text sep strp t = join sep (all_strings strp t)"

section \<open>Identifier patterns (re.search with re.I)\<close>

text \<open>
  The three patterns of \<open>parse_survey_page\<close> have one shape: a label (or an alternation
  of labels), \<open>[:\t ]+\<close>, and a group \<open>[...]+\<close>. The separator class and the group's
  class are disjoint, so the greedy match is the only one at a position. Under \<open>re.I\<close> a
  label character matches the characters with the same lower case, and below code point
  256 the group's class matches what it lists.
\<close>

definition is_sep :: "char \<Rightarrow> bool" where
  "is_sep c = (c \<in> set [CHR '':'', CHR 0x09, CHR '' ''])"

definition is_alnum :: "char \<Rightarrow> bool" where
  "is_alnum c = (let n = (of_char c :: nat)
                 in (48 \<le> n \<and> n \<le> 57) \<or> (65 \<le> n \<and> n \<le> 90) \<or> (97 \<le> n \<and> n \<le> 122))"

definition tok_plain :: "char \<Rightarrow> bool" where
  "tok_plain c = (is_alnum c \<or> c = CHR ''_'' \<or> c = CHR ''-'')"

definition tok_dotted :: "char \<Rightarrow> bool" where
  "tok_dotted c = (is_alnum c \<or> c = CHR ''.'' \<or> c = CHR ''_'' \<or> c = CHR ''-'')"

definition match_one :: "string \<Rightarrow> (char \<Rightarrow> bool) \<Rightarrow> string \<Rightarrow> string option" where
  "match_one lbl tok s =
     (if length lbl \<le> length s \<and> lower (take (length lbl) s) = lower lbl
      then (let rest = drop (length lbl) s;
                seps = takeWhile is_sep rest;
                t = takeWhile tok (dropWhile is_sep rest)
            in if seps \<noteq> [] \<and> t \<noteq> [] then Some t else None)
      else None)"

fun match_here :: "string list \<Rightarrow> (char \<Rightarrow> bool) \<Rightarrow> string \<Rightarrow> string option" where
  "match_here [] tok s = None"
| "match_here (lbl # lbls) tok s =
     (case match_one lbl tok s of Some t \<Rightarrow> Some t | None \<Rightarrow> match_here lbls tok s)"

fun re_search :: "string list \<Rightarrow> (char \<Rightarrow> bool) \<Rightarrow> string \<Rightarrow> string option" where
  "re_search lbls tok [] = match_here lbls tok []"
| "re_search lbls tok (c # cs) =
     (case match_here lbls tok (c # cs) of
        Some t \<Rightarrow> Some t
      | None \<Rightarrow> re_search lbls tok cs)"

section \<open>Data frames (pandas)\<close>

text \<open>
  A frame is its column labels and its rows, each row holding one cell per column; a cell
  is a string or missing (\<open>None\<close>). \<open>DataFrame_rows\<close> is \<open>pd.DataFrame(rows)\<close> on a list of
  lists: integer labels, shorter rows padded with missing cells.
\<close>

datatype label = Idx nat | Name string

type_synonym cell = "string option"

record dataframe =
  columns :: "label list"
  rows :: "cell list list"

definition DataFrame_rows :: "string list list \<Rightarrow> dataframe" where
  "DataFrame_rows rs =
     (let w = foldr max (map length rs) 0
      in \<lparr>columns = map Idx [0..<w],
          rows = map (\<lambda>r. map Some r @ replicate (w - length r) None) rs\<rparr>)"

definition DataFrame_items :: "string list list \<Rightarrow> label list \<Rightarrow> py_error + dataframe" where
  "DataFrame_items items cols =
     (if list_all (\<lambda>r. length r = length cols) items
      then Inr \<lparr>columns = cols, rows = map (map Some) items\<rparr>
      else Inl ValueError)"

definition shape1 :: "dataframe \<Rightarrow> nat" where
  "shape1 df = length (columns df)"

definition iloc_first2 :: "dataframe \<Rightarrow> dataframe" where
  "iloc_first2 df = \<lparr>columns = take 2 (columns df), rows = map (take 2) (rows df)\<rparr>"

definition set_columns :: "dataframe \<Rightarrow> label list \<Rightarrow> py_error + dataframe" where
  "set_columns df names =
     (if length names = length (columns df) then Inr (df\<lparr>columns := names\<rparr>)
      else Inl ValueError)"

fun index_of :: "label \<Rightarrow> label list \<Rightarrow> nat option" where
  "index_of l [] = None"
| "index_of l (x # xs) = (if x = l then Some 0 else map_option Suc (index_of l xs))"

definition setitem :: "dataframe \<Rightarrow> label \<Rightarrow> cell \<Rightarrow> dataframe" where
  "setitem df l v =
     (case index_of l (columns df) of
        Some i \<Rightarrow> df\<lparr>rows := map (\<lambda>r. r[i := v]) (rows df)\<rparr>
      | None \<Rightarrow> \<lparr>columns = columns df @ [l], rows = map (\<lambda>r. r @ [v]) (rows df)\<rparr>)"

section \<open>Survey pages (Github-app.py, parse_survey_page)\<close>

fun max_from :: "('a \<Rightarrow> nat) \<Rightarrow> 'a \<Rightarrow> 'a list \<Rightarrow> 'a" where
  "max_from k best [] = best"
| "max_from k best (x # xs) = max_from k (if k best < k x then x else best) xs"

definition py_max :: "('a \<Rightarrow> nat) \<Rightarrow> 'a list \<Rightarrow> py_error + 'a" where
  "py_max k xs = (case xs of [] \<Rightarrow> Inl ValueError | x # r \<Rightarrow> Inr (max_from k x r))"

definition tr_count :: "node \<Rightarrow> nat" where
  "tr_count t = length (find_all [''tr''] t)"

definition table_rows :: "node \<Rightarrow> string list list" where
  "table_rows best =
     filter (\<lambda>cols. cols \<noteq> [])
       (map (\<lambda>tr. map (get_text [] True) (find_all [''td'', ''th''] tr))
            (find_all [''tr''] best))"

definition qr_columns :: "label list" where
  "qr_columns = [Name ''question'', Name ''response'']"

definition table_survey :: "node \<Rightarrow> py_error + dataframe option" where
  "table_survey soup =
     (let tables = find_all [''table''] soup
      in if tables \<noteq> [] then
           bind_e (py_max tr_count tables) (\<lambda>best.
             let df = DataFrame_rows (table_rows best)
             in if 2 \<le> shape1 df
                then bind_e (set_columns (iloc_first2 df) qr_columns) (\<lambda>df2. Inr (Some df2))
                else Inr None)
         else Inr None)"

definition split_colon1 :: "string \<Rightarrow> string list" where
  "split_colon1 s =
     (if CHR '':'' \<in> set s
      then [takeWhile (\<lambda>c. c \<noteq> CHR '':'') s, tl (dropWhile (\<lambda>c. c \<noteq> CHR '':'') s)]
      else [s])"

definition unpack2 :: "'a list \<Rightarrow> py_error + ('a \<times> 'a)" where
  "unpack2 xs = (case xs of [a, b] \<Rightarrow> Inr (a, b) | _ \<Rightarrow> Inl ValueError)"

fun fallback_items :: "node list \<Rightarrow> py_error + string list list" where
  "fallback_items [] = Inr []"
| "fallback_items (tag # tags) =
     (if CHR '':'' \<in> set (get_text [] False tag)
      then bind_e (unpack2 (split_colon1 (get_text [] False tag))) (\<lambda>(q, r).
             bind_e (fallback_items tags) (\<lambda>rest. Inr ([strip q, strip r] # rest)))
      else fallback_items tags)"

definition fallback_survey :: "node \<Rightarrow> py_error + dataframe" where
  "fallback_survey soup =
     bind_e (fallback_items (find_all [''p'', ''li''] soup)) (\<lambda>items.
       if items \<noteq> [] then DataFrame_items items qr_columns
       else Inr \<lparr>columns = qr_columns, rows = []\<rparr>)"

definition page_biosample_id :: "string \<Rightarrow> string option" where
  "page_biosample_id text =
     (case re_search [''Biosample''] tok_plain text of
        Some t \<Rightarrow> Some t
      | None \<Rightarrow> (case re_search [''Sample ID'', ''Barcode''] tok_dotted text of
                   Some t \<Rightarrow> Some t
                 | None \<Rightarrow> None))"

definition page_accession_id :: "string \<Rightarrow> string option" where
  "page_accession_id text =
     (case re_search [''Accession''] tok_dotted text of Some t \<Rightarrow> Some t | None \<Rightarrow> None)"

definition parse_survey_page :: "node \<Rightarrow> string \<Rightarrow> py_error + dataframe" where
  "parse_survey_page soup url =
     (let text = get_text '' '' True soup;
          biosample_id = page_biosample_id text;
          accession_id = page_accession_id text
      in bind_e (table_survey soup) (\<lambda>survey.
           bind_e (case survey of None \<Rightarrow> fallback_survey soup | Some df \<Rightarrow> Inr df) (\<lambda>survey2.
             Inr (setitem (setitem (setitem survey2 (Name ''biosample_id'') biosample_id)
                                   (Name ''accession_id'') accession_id)
                          (Name ''source_url'') (Some url)))))"

section \<open>Records as the specification words them\<close>

text \<open>
  \<open>table_records\<close>: the first two cell texts of every row of the selected table, the
  second one missing when the row has one cell. \<open>spec_free_text_records\<close>: every
  paragraph or list item whose text has a colon, split at the first colon and trimmed.
  \<open>with_page_ids\<close>: the page's identifiers and URL attached to a record.
\<close>

definition table_records :: "node \<Rightarrow> cell list list" where
  "table_records best =
     map (\<lambda>cols. [Some (hd cols), if 2 \<le> length cols then Some (cols ! 1) else None])
         (table_rows best)"

definition has_colon :: "string \<Rightarrow> bool" where
  "has_colon s = (CHR '':'' \<in> set s)"

definition spec_free_text_records :: "node \<Rightarrow> cell list list" where
  "spec_free_text_records soup =
     map (\<lambda>s. [Some (strip (takeWhile (\<lambda>c. c \<noteq> CHR '':'') s)),
               Some (strip (tl (dropWhile (\<lambda>c. c \<noteq> CHR '':'') s)))])
         (filter has_colon (map (get_text [] False) (find_all [''p'', ''li''] soup)))"

definition survey_columns :: "label list" where
  "survey_columns = [Name ''question'', Name ''response'', Name ''biosample_id'',
                     Name ''accession_id'', Name ''source_url'']"

definition with_page_ids :: "node \<Rightarrow> string \<Rightarrow> cell list \<Rightarrow> cell list" where
  "with_page_ids soup url qr =
     qr @ [page_biosample_id (get_text '' '' True soup),
           page_accession_id (get_text '' '' True soup), Some url]"

definition wide_row :: "node \<Rightarrow> bool" where
  "wide_row best = list_ex (\<lambda>cols. 2 \<le> length cols) (table_rows best)"


section \<open>Example pages\<close>

definition ragged_table :: node where
  "ragged_table =
     Tag ''table'' [Tag ''tr'' [Tag ''td'' [Text '' a ''], Tag ''td'' [Text ''b''], Tag ''td'' [Text ''x'']],
                    Tag ''tr'' [Tag ''td'' [Text ''c'']],
                    Tag ''tr'' []]"

definition page_ragged_table :: node where
  "page_ragged_table =
     Tag ''[document]'' [Tag ''html'' [Tag ''body''
       [Tag ''p'' [Text ''Biosample: AGP123456 ''],
        Tag ''table'' [Tag ''tr'' [Tag ''td'' [Text ''k'']]],
        ragged_table,
        Tag ''ul'' [Tag ''li'' [Text ''Diet: Omnivore'']]]]]"

definition page_two_items :: node where
  "page_two_items =
     Tag ''[document]'' [Tag ''ul'' [Tag ''li'' [Text ''Diet: Omnivore''],
                                    Tag ''li'' [Text ''NoColonHere'']]]"

definition page_plain :: node where
  "page_plain = Tag ''[document]'' [Tag ''p'' [Text ''nothing here''], Comment ''a: b'']"

section \<open>More of pandas: columns, unique values, CSV\<close>

definition getcol :: "dataframe \<Rightarrow> label \<Rightarrow> py_error + cell list" where
  "getcol df l =
     (case index_of l (columns df) of
        None \<Rightarrow> Inl KeyError
      | Some i \<Rightarrow> Inr (map (\<lambda>r. r ! i) (rows df)))"

definition fillna :: "string \<Rightarrow> cell list \<Rightarrow> cell list" where
  "fillna v col = map (\<lambda>c. case c of None \<Rightarrow> Some v | Some s \<Rightarrow> Some s) col"

text \<open>Element-wise \<open>+\<close> of two string columns of one frame; a missing cell stays missing.\<close>

definition col_add :: "cell list \<Rightarrow> cell list \<Rightarrow> cell list" where
  "col_add a b =
     map (\<lambda>(x, y). case x of None \<Rightarrow> None
                     | Some s \<Rightarrow> (case y of None \<Rightarrow> None | Some t \<Rightarrow> Some (s @ t)))
         (zip a b)"

definition col_add_str :: "cell list \<Rightarrow> string \<Rightarrow> cell list" where
  "col_add_str a v = map (map_option (\<lambda>s. s @ v)) a"

text \<open>\<open>df[l] = col\<close> with one value per row.\<close>

definition setitem_col :: "dataframe \<Rightarrow> label \<Rightarrow> cell list \<Rightarrow> dataframe" where
  "setitem_col df l col =
     (case index_of l (columns df) of
        Some i \<Rightarrow> df\<lparr>rows := map (\<lambda>(r, v). r[i := v]) (zip (rows df) col)\<rparr>
      | None \<Rightarrow> \<lparr>columns = columns df @ [l],
                  rows = map (\<lambda>(r, v). r @ [v]) (zip (rows df) col)\<rparr>)"

text \<open>\<open>df[sel]\<close>: the rows whose selector entry is true.\<close>

definition select_rows :: "dataframe \<Rightarrow> bool list \<Rightarrow> dataframe" where
  "select_rows df sel = df\<lparr>rows := map fst (filter snd (zip (rows df) sel))\<rparr>"

text \<open>\<open>unique()\<close>: the distinct values in order of first appearance.\<close>

fun uniq_from :: "'a list \<Rightarrow> 'a list \<Rightarrow> 'a list" where
  "uniq_from seen [] = []"
| "uniq_from seen (x # xs) =
     (if x \<in> set seen then uniq_from seen xs else x # uniq_from (x # seen) xs)"

definition unique :: "'a list \<Rightarrow> 'a list" where
  "unique xs = uniq_from [] xs"

text \<open>The slice \<open>xs[:n]\<close>: a negative \<open>n\<close> counts from the end.\<close>

definition slice_to :: "int \<Rightarrow> 'a list \<Rightarrow> 'a list" where
  "slice_to n xs = (if 0 \<le> n then take (nat n) xs else take (length xs - nat (- n)) xs)"

text \<open>\<open>pd.DataFrame(list of dicts)\<close>: the keys in order of first appearance are the columns.\<close>

definition DataFrame_dicts :: "(string \<times> cell) list list \<Rightarrow> dataframe" where
  "DataFrame_dicts ds =
     (let keys = unique (concat (map (map fst) ds))
      in \<lparr>columns = map Name keys,
          rows = map (\<lambda>d. map (\<lambda>k. case map_of d k of None \<Rightarrow> None | Some v \<Rightarrow> v) keys) ds\<rparr>)"

fun digits :: "nat \<Rightarrow> nat \<Rightarrow> string" where
  "digits 0 n = []"
| "digits (Suc fuel) n =
     (if n < 10 then [char_of (48 + n)]
      else digits fuel (n div 10) @ [char_of (48 + n mod 10)])"

definition label_str :: "label \<Rightarrow> string" where
  "label_str l = (case l of Name s \<Rightarrow> s | Idx n \<Rightarrow> digits (Suc n) n)"

text \<open>
  \<open>to_csv(index=False)\<close> with the defaults: comma, double quote, minimal quoting, a
  line feed after every line; a missing cell is written empty.
\<close>

definition csv_field :: "string \<Rightarrow> string" where
  "csv_field s =
     (if list_ex (\<lambda>c. c \<in> set [CHR '','', CHR 0x22, CHR 0x0A, CHR 0x0D]) s
      then [CHR 0x22] @ concat (map (\<lambda>c. if c = CHR 0x22 then [c, c] else [c]) s) @ [CHR 0x22]
      else s)"

definition csv_line :: "string list \<Rightarrow> string" where
  "csv_line vals = join '','' (map csv_field vals) @ [CHR 0x0A]"

definition to_csv :: "dataframe \<Rightarrow> string" where
  "to_csv df =
     csv_line (map label_str (columns df))
     @ concat (map (\<lambda>r. csv_line (map (\<lambda>c. case c of None \<Rightarrow> [] | Some s \<Rightarrow> s) r)) (rows df))"

section \<open>Regular expressions of str.contains\<close>

text \<open>
  \<open>Series.str.contains(pat)\<close> takes \<open>pat\<close> as a regular expression. The model covers the
  patterns made of ordinary characters and \<open>.\<close> (any character but a line feed); a
  pattern with another metacharacter is reported as \<open>Unmodelled\<close>.
\<close>

datatype atom = Lit char | AnyChar

definition regex_meta :: "char \<Rightarrow> bool" where
  "regex_meta c =
     (c \<in> set [CHR ''.'', CHR ''^'', CHR ''$'', CHR ''*'', CHR ''+'', CHR ''?'', CHR ''{'',
               CHR ''}'', CHR ''['', CHR '']'', CHR 0x5C, CHR ''|'', CHR ''('', CHR '')''])"

definition re_compile :: "string \<Rightarrow> py_error + atom list" where
  "re_compile p =
     (if list_all (\<lambda>c. c = CHR ''.'' \<or> \<not> regex_meta c) p
      then Inr (map (\<lambda>c. if c = CHR ''.'' then AnyChar else Lit c) p)
      else Inl Unmodelled)"

definition atom_matches :: "atom \<Rightarrow> char \<Rightarrow> bool" where
  "atom_matches a c = (case a of Lit x \<Rightarrow> c = x | AnyChar \<Rightarrow> c \<noteq> CHR 0x0A)"

fun match_atoms :: "atom list \<Rightarrow> string \<Rightarrow> bool" where
  "match_atoms [] s = True"
| "match_atoms (a # as) [] = False"
| "match_atoms (a # as) (c # cs) = (atom_matches a c \<and> match_atoms as cs)"

fun rx_search :: "atom list \<Rightarrow> string \<Rightarrow> bool" where
  "rx_search as [] = match_atoms as []"
| "rx_search as (c # cs) = (match_atoms as (c # cs) \<or> rx_search as cs)"

definition str_contains :: "string \<Rightarrow> cell list \<Rightarrow> py_error + bool list" where
  "str_contains pat col =
     bind_e (re_compile pat) (\<lambda>rx.
       Inr (map (\<lambda>c. case c of None \<Rightarrow> False | Some s \<Rightarrow> rx_search rx s) col))"

section \<open>Filtering (Github-app.py, filter_responses)\<close>

definition filter_responses :: "dataframe \<Rightarrow> string \<Rightarrow> int \<Rightarrow> py_error + dataframe" where
  "filter_responses df contains n =
     (let contains1 = lower contains
      in bind_e (getcol df (Name ''response'')) (\<lambda>resp.
         bind_e (str_contains contains1 (map (map_option lower) resp)) (\<lambda>sel.
           let keep = select_rows df sel
           in bind_e (getcol keep (Name ''biosample_id'')) (\<lambda>b.
              bind_e (getcol keep (Name ''accession_id'')) (\<lambda>a.
              bind_e (getcol keep (Name ''source_url'')) (\<lambda>u.
                let idcol = col_add (col_add_str (col_add (col_add_str (fillna [] b) ''_'')
                                                          (fillna [] a)) ''_'')
                                    (fillna [] u);
                    keep2 = setitem_col keep (Name ''id'') idcol
                in bind_e (getcol keep2 (Name ''id'')) (\<lambda>idc.
                     let ids = slice_to n (unique idc)
                     in bind_e (getcol keep2 (Name ''id'')) (\<lambda>idc2.
                          Inr (select_rows keep2 (map (\<lambda>v. v \<in> set ids) idc2))))))))))"

section \<open>The batch script (biosample_scraper.py)\<close>

definition DEMO_DF :: dataframe where
  "DEMO_DF = \<lparr>columns = [Name ''biosample_id'', Name ''question'', Name ''response''],
              rows = [[Some ''DEMO1'', Some ''Diet type'', Some ''Omnivore''],
                      [Some ''DEMO2'', Some ''Diet type'', Some ''Vegetarian''],
                      [Some ''DEMO3'', Some ''Diet type'', Some ''Vegan'']]\<rparr>"

text \<open>
  Reading a text file: \<open>\r\n\<close> and \<open>\r\<close> become a line feed, and the lines are the pieces
  between line feeds (the line feed itself, which \<open>strip\<close> removes, is left out).
\<close>

fun translate_newlines :: "string \<Rightarrow> string" where
  "translate_newlines [] = []"
| "translate_newlines [c] = (if c = CHR 0x0D then [CHR 0x0A] else [c])"
| "translate_newlines (c # d # ds) =
     (if c = CHR 0x0D
      then (if d = CHR 0x0A then CHR 0x0A # translate_newlines ds
            else CHR 0x0A # translate_newlines (d # ds))
      else c # translate_newlines (d # ds))"

fun lines_from :: "string \<Rightarrow> string \<Rightarrow> string list" where
  "lines_from cur [] = (if cur = [] then [] else [rev cur])"
| "lines_from cur (c # cs) =
     (if c = CHR 0x0A then rev cur # lines_from [] cs else lines_from (c # cur) cs)"

definition file_lines :: "string \<Rightarrow> string list" where
  "file_lines content = lines_from [] (translate_newlines content)"

definition read_ids :: "string \<Rightarrow> string list" where
  "read_ids content = map strip (filter (\<lambda>line. strip line \<noteq> []) (file_lines content))"

definition row_get :: "dataframe \<Rightarrow> cell list \<Rightarrow> label \<Rightarrow> py_error + cell" where
  "row_get df r l =
     (case index_of l (columns df) of None \<Rightarrow> Inl KeyError | Some i \<Rightarrow> Inr (r ! i))"

fun demo_rows_for :: "string \<Rightarrow> cell list list \<Rightarrow> py_error + (string \<times> cell) list list" where
  "demo_rows_for biosample_id [] = Inr []"
| "demo_rows_for biosample_id (r # rs) =
     bind_e (row_get DEMO_DF r (Name ''question'')) (\<lambda>q.
     bind_e (row_get DEMO_DF r (Name ''response'')) (\<lambda>p.
     bind_e (demo_rows_for biosample_id rs) (\<lambda>rest.
       Inr ([(''biosample_id'', Some biosample_id), (''question'', q), (''response'', p)]
            # rest))))"

fun output_rows_for :: "string list \<Rightarrow> py_error + (string \<times> cell) list list" where
  "output_rows_for [] = Inr []"
| "output_rows_for (i # ids) =
     bind_e (demo_rows_for i (rows DEMO_DF)) (\<lambda>rs.
     bind_e (output_rows_for ids) (\<lambda>rest. Inr (rs @ rest)))"

datatype outcome = Completed | Exited nat | Uncaught py_error

record run_result =
  status :: outcome
  printed :: "string list"
  files :: "string \<Rightarrow> string option"

definition usage_message :: string where
  "usage_message = ''Usage: python biosample_scraper.py input_ids.txt output.csv''"

definition main :: "string list \<Rightarrow> (string \<Rightarrow> string option) \<Rightarrow> run_result" where
  "main argv fs =
     (if length argv \<noteq> 3
      then \<lparr>status = Exited 1, printed = [usage_message], files = fs\<rparr>
      else
        let input_file = argv ! 1; output_file = argv ! 2
        in case fs input_file of
             None \<Rightarrow> \<lparr>status = Uncaught FileNotFoundError, printed = [], files = fs\<rparr>
           | Some content \<Rightarrow>
               let ids = read_ids content;
                   out1 = [''Attempting to fetch survey data... (will use demo data if unavailable)''
                           @ [CHR 0x0A]]
                          @ map (\<lambda>i. ''Processing: '' @ i @ '' -> using demo data'') ids
               in case output_rows_for ids of
                    Inl e \<Rightarrow> \<lparr>status = Uncaught e, printed = out1, files = fs\<rparr>
                  | Inr output_rows \<Rightarrow>
                      \<lparr>status = Completed,
                       printed = out1 @ [[CHR 0x0A] @ ''Saved CSV file: '' @ output_file,
                                         ''Script complete.''],
                       files = fs(output_file \<mapsto> to_csv (DataFrame_dicts output_rows))\<rparr>)"

section \<open>Example inputs\<close>

definition one_row_frame :: dataframe where
  "one_row_frame =
     \<lparr>columns = survey_columns,
      rows = [[Some ''Diet'', Some ''abc'', Some ''B1'', None, Some ''u'']]\<rparr>"

definition two_ids_fs :: "string \<Rightarrow> string option" where
  "two_ids_fs = [''ids.txt'' \<mapsto> ''S1'' @ [CHR 0x0A, CHR 0x0A] @ '' S2 '' @ [CHR 0x0D, CHR 0x0A]]"

definition blank_ids_fs :: "string \<Rightarrow> string option" where
  "blank_ids_fs = [''ids.txt'' \<mapsto> [CHR 0x0A] @ ''  '' @ [CHR 0x0A]]"

section \<open>Facts about trimming\<close>

lemma isspace_not_invalid: "isspace c \<Longrightarrow> \<not> invalid_sheet_char c"
  by (auto simp: isspace_def invalid_sheet_char_def)

lemma dash_not_space: "\<not> isspace CHR ''-''"
  by (simp add: isspace_def)

lemma dash_not_invalid: "\<not> invalid_sheet_char CHR ''-''"
  by (simp add: invalid_sheet_char_def)

lemma set_rstrip: "set (rstrip s) \<subseteq> set s"
proof
  fix c assume "c \<in> set (rstrip s)"
  then have "c \<in> set (dropWhile isspace (rev s))" by (simp add: rstrip_def)
  then have "c \<in> set (rev s)" by (rule set_dropWhileD)
  then show "c \<in> set s" by simp
qed

lemma set_lstrip: "set (lstrip s) \<subseteq> set s"
  unfolding lstrip_def by (rule subsetI) (rule set_dropWhileD)

lemma set_strip: "set (strip s) \<subseteq> set s"
  unfolding strip_def using set_rstrip set_lstrip by blast

lemma length_rstrip: "length (rstrip s) \<le> length s"
  using length_dropWhile_le [of isspace "rev s"] by (simp add: rstrip_def)

lemma rstrip_Nil_iff: "rstrip s = [] \<longleftrightarrow> list_all isspace s"
  by (simp add: rstrip_def dropWhile_eq_Nil_conv list_all_iff)

lemma lstrip_Nil_iff: "lstrip s = [] \<longleftrightarrow> list_all isspace s"
  by (simp add: lstrip_def dropWhile_eq_Nil_conv list_all_iff)

lemma hd_lstrip: "lstrip s \<noteq> [] \<Longrightarrow> \<not> isspace (hd (lstrip s))"
  unfolding lstrip_def by (rule hd_dropWhile)

lemma last_rstrip: "rstrip s \<noteq> [] \<Longrightarrow> \<not> isspace (last (rstrip s))"
proof -
  assume ne: "rstrip s \<noteq> []"
  then have d: "dropWhile isspace (rev s) \<noteq> []" by (simp add: rstrip_def)
  have "last (rstrip s) = hd (dropWhile isspace (rev s))"
    using d by (simp add: rstrip_def last_rev)
  with hd_dropWhile [OF d] show ?thesis by simp
qed

lemma lstrip_id: "s = [] \<or> \<not> isspace (hd s) \<Longrightarrow> lstrip s = s"
  by (cases s) (auto simp: lstrip_def)

lemma rstrip_id: "s = [] \<or> \<not> isspace (last s) \<Longrightarrow> rstrip s = s"
proof (cases "s = []")
  case True
  then show ?thesis by (simp add: rstrip_def)
next
  case False
  assume "s = [] \<or> \<not> isspace (last s)"
  with False have "\<not> isspace (hd (rev s))" by (simp add: hd_rev)
  moreover from False have "rev s \<noteq> []" by simp
  ultimately have "dropWhile isspace (rev s) = rev s"
    by (cases "rev s") auto
  then show ?thesis by (simp add: rstrip_def)
qed

lemma rstrip_keeps_head:
  assumes "s \<noteq> []" "\<not> isspace (hd s)"
  shows "rstrip s \<noteq> [] \<and> hd (rstrip s) = hd s"
proof -
  from assms obtain x xs where s: "s = x # xs" and x: "\<not> isspace x"
    by (cases s) auto
  have "dropWhile isspace (rev xs @ [x]) = dropWhile isspace (rev xs) @ [x]"
    using x by (simp add: dropWhile_append)
  then have "rstrip s = x # rev (dropWhile isspace (rev xs))"
    by (simp add: rstrip_def s)
  then show ?thesis by (simp add: s)
qed

lemma rstrip_rstrip: "rstrip (rstrip s) = rstrip s"
  by (rule rstrip_id) (use last_rstrip in blast)

lemma strip_Nil_iff: "strip s = [] \<longleftrightarrow> list_all isspace s"
proof
  assume "strip s = []"
  then have "list_all isspace (lstrip s)" by (simp add: strip_def rstrip_Nil_iff)
  then have "lstrip s = []"
    using hd_lstrip [of s] by (cases "lstrip s") auto
  then show "list_all isspace s" by (simp add: lstrip_Nil_iff)
next
  assume "list_all isspace s"
  then have "lstrip s = []" by (simp add: lstrip_Nil_iff)
  then show "strip s = []" by (simp add: strip_def rstrip_def)
qed

lemma hd_strip: "strip s \<noteq> [] \<Longrightarrow> \<not> isspace (hd (strip s))"
proof -
  assume ne: "strip s \<noteq> []"
  then have l: "lstrip s \<noteq> []" by (auto simp: strip_def rstrip_def)
  from rstrip_keeps_head [OF l hd_lstrip [OF l]] hd_lstrip [OF l]
  show ?thesis by (simp add: strip_def)
qed

lemma last_strip: "strip s \<noteq> [] \<Longrightarrow> \<not> isspace (last (strip s))"
  unfolding strip_def by (rule last_rstrip)

lemma strip_id: "s = [] \<or> (\<not> isspace (hd s) \<and> \<not> isspace (last s)) \<Longrightarrow> strip s = s"
  by (auto simp: strip_def lstrip_id rstrip_id)

section \<open>Facts about sheet names\<close>

lemma re_sub_invalid_valid: "c \<in> set (re_sub_invalid s) \<Longrightarrow> \<not> invalid_sheet_char c"
  by (auto simp: re_sub_invalid_def dash_not_invalid split: if_splits)

lemma re_sub_invalid_id: "\<not> list_ex invalid_sheet_char s \<Longrightarrow> re_sub_invalid s = s"
  by (induction s) (auto simp: re_sub_invalid_def)

lemma re_sub_invalid_spaces: "list_all isspace (re_sub_invalid s) \<longleftrightarrow> list_all isspace s"
  by (induction s) (auto simp: re_sub_invalid_def dash_not_space isspace_not_invalid)

lemma re_sub_invalid_all:
  "list_all invalid_sheet_char s \<Longrightarrow> re_sub_invalid s = replicate (length s) CHR ''-''"
  by (induction s) (auto simp: re_sub_invalid_def)

lemma isspace_re_sub: "isspace (if invalid_sheet_char c then CHR ''-'' else c) = isspace c"
  using isspace_not_invalid [of c] by (auto simp: dash_not_space)

lemma strip_re_sub_invalid: "strip (re_sub_invalid s) = re_sub_invalid (strip s)"
proof -
  let ?f = "\<lambda>c. if invalid_sheet_char c then CHR ''-'' else c"
  have o: "isspace \<circ> ?f = isspace" using isspace_re_sub by (simp add: fun_eq_iff)
  have d: "dropWhile isspace (map ?f xs) = map ?f (dropWhile isspace xs)" for xs
    by (simp add: dropWhile_map o)
  show ?thesis
    by (simp add: strip_def lstrip_def rstrip_def re_sub_invalid_def d rev_map)
qed

lemma sanitize_cases:
  "sanitize_sheet_name s =
     (if list_all isspace s then ''sheet'' else take 31 (strip (re_sub_invalid s)))"
proof (cases "list_all isspace s")
  case True
  then have "strip (re_sub_invalid s) = []"
    by (simp add: strip_Nil_iff re_sub_invalid_spaces)
  with True show ?thesis by (simp add: sanitize_sheet_name_def)
next
  case False
  then have "strip (re_sub_invalid s) \<noteq> []"
    by (simp add: strip_Nil_iff re_sub_invalid_spaces)
  then have "take 31 (strip (re_sub_invalid s)) \<noteq> []" by simp
  with False show ?thesis by (simp add: sanitize_sheet_name_def Let_def)
qed

lemma sheet_valid: "\<not> list_ex invalid_sheet_char ''sheet''"
  by (simp add: invalid_sheet_char_def)

lemma sanitize_valid: "\<not> list_ex invalid_sheet_char (sanitize_sheet_name s)"
proof (cases "list_all isspace s")
  case True
  then show ?thesis using sheet_valid by (simp add: sanitize_cases)
next
  case False
  have "set (take 31 (strip (re_sub_invalid s))) \<subseteq> set (re_sub_invalid s)"
    using set_take_subset set_strip by fast
  then have "\<forall>c \<in> set (take 31 (strip (re_sub_invalid s))). \<not> invalid_sheet_char c"
    using re_sub_invalid_valid by blast
  with False show ?thesis by (simp add: sanitize_cases list_ex_iff)
qed

lemma sanitize_length: "length (sanitize_sheet_name s) \<le> 31"
  by (simp add: sanitize_cases)

lemma sanitize_head:
  "sanitize_sheet_name s \<noteq> [] \<and> \<not> isspace (hd (sanitize_sheet_name s))"
proof (cases "list_all isspace s")
  case True
  then show ?thesis by (simp add: sanitize_cases isspace_def)
next
  case False
  then have ne: "strip (re_sub_invalid s) \<noteq> []"
    by (simp add: strip_Nil_iff re_sub_invalid_spaces)
  with hd_strip [OF ne] False show ?thesis by (simp add: sanitize_cases)
qed

lemma sanitize_twice: "sanitize_sheet_name (sanitize_sheet_name s) = rstrip (sanitize_sheet_name s)"
proof -
  let ?r = "sanitize_sheet_name s"
  have h: "?r \<noteq> []" "\<not> isspace (hd ?r)" using sanitize_head by auto
  have sub: "re_sub_invalid ?r = ?r" by (rule re_sub_invalid_id) (rule sanitize_valid)
  have "\<not> list_all isspace ?r" using h by (cases ?r) auto
  then have "sanitize_sheet_name ?r = take 31 (strip ?r)"
    using sanitize_cases [of ?r] sub by simp
  also have "strip ?r = rstrip ?r" using h by (simp add: strip_def lstrip_id)
  also have "take 31 (rstrip ?r) = rstrip ?r"
    using length_rstrip [of ?r] sanitize_length [of s] by simp
  finally show ?thesis .
qed

section \<open>Claims about sheet names\<close>

text \<open>
  C5 (as amended). The sanitized name has at most 31 characters and none of the
  characters \<open>: \ / ? * [ ]\<close>. With each of these characters of the input replaced by a
  dash and the surrounding whitespace trimmed, the name is the placeholder \<open>sheet\<close> when
  nothing is left, and otherwise what is left, cut to 31 characters. \<open>a/b:c*d\<close> gives
  \<open>a-b-c-d\<close>, and a non-empty input made only of invalid characters gives as many dashes
  (at most 31), not the placeholder.
\<close>

theorem sanitize_sheet_name_spec:
  "length (sanitize_sheet_name s) \<le> 31
   \<and> \<not> list_ex invalid_sheet_char (sanitize_sheet_name s)
   \<and> (strip (map (\<lambda>c. if invalid_sheet_char c then CHR ''-'' else c) s) = [] \<longrightarrow>
        sanitize_sheet_name s = ''sheet'')
   \<and> (strip (map (\<lambda>c. if invalid_sheet_char c then CHR ''-'' else c) s) \<noteq> [] \<longrightarrow>
        sanitize_sheet_name s
          = take 31 (strip (map (\<lambda>c. if invalid_sheet_char c then CHR ''-'' else c) s)))
   \<and> sanitize_sheet_name ''a/b:c*d'' = ''a-b-c-d''
   \<and> (s \<noteq> [] \<and> list_all invalid_sheet_char s \<longrightarrow>
        sanitize_sheet_name s = replicate (min 31 (length s)) CHR ''-''
        \<and> sanitize_sheet_name s \<noteq> ''sheet'')"
proof -
  let ?r = "strip (map (\<lambda>c. if invalid_sheet_char c then CHR ''-'' else c) s)"
  have r: "?r = strip (re_sub_invalid s)" by (simp add: re_sub_invalid_def)
  have e: "?r = [] \<longleftrightarrow> list_all isspace s"
    unfolding r by (simp add: strip_Nil_iff re_sub_invalid_spaces)
  have p: "?r = [] \<longrightarrow> sanitize_sheet_name s = ''sheet''"
    using e by (simp add: sanitize_cases)
  have q: "?r \<noteq> [] \<longrightarrow> sanitize_sheet_name s = take 31 ?r"
    using e by (simp add: sanitize_cases re_sub_invalid_def)
  have ex: "sanitize_sheet_name ''a/b:c*d'' = ''a-b-c-d''"
    by (simp add: sanitize_sheet_name_def re_sub_invalid_def invalid_sheet_char_def
        strip_def lstrip_def rstrip_def isspace_def)
  have dashes: "sanitize_sheet_name s = replicate (min 31 (length s)) CHR ''-''
      \<and> sanitize_sheet_name s \<noteq> ''sheet''"
    if ne: "s \<noteq> []" and inv: "list_all invalid_sheet_char s"
  proof -
    have nsp: "\<not> list_all isspace s"
      using ne inv isspace_not_invalid by (cases s) auto
    let ?d = "replicate (length s) CHR ''-''"
    have "strip ?d = ?d"
      using ne by (intro strip_id) (simp add: hd_replicate last_replicate dash_not_space)
    then have a: "sanitize_sheet_name s = replicate (min 31 (length s)) CHR ''-''"
      using nsp inv by (simp add: sanitize_cases re_sub_invalid_all min.commute)
    have "CHR ''s'' \<notin> set (replicate (min 31 (length s)) CHR ''-'')" by simp
    then have "replicate (min 31 (length s)) CHR ''-'' \<noteq> ''sheet''"
      by (metis list.set_intros(1))
    with a show ?thesis by simp
  qed
  from sanitize_length [of s] sanitize_valid [of s] p q ex dashes show ?thesis by blast
qed

theorem sanitize_sheet_name_spec_witness:
  "length (sanitize_sheet_name '' a/b ?'') \<le> 31
   \<and> \<not> list_ex invalid_sheet_char (sanitize_sheet_name '' a/b ?'')
   \<and> sanitize_sheet_name '' a/b ?'' = ''a-b -''
   \<and> sanitize_sheet_name ''  '' = ''sheet''
   \<and> sanitize_sheet_name ''[?]'' = ''---''"
proof -
  have sp: "strip (map (\<lambda>c. if invalid_sheet_char c then CHR ''-'' else c) ''  '') = []"
    by (simp add: invalid_sheet_char_def strip_def lstrip_def rstrip_def isspace_def)
  have ev: "strip (map (\<lambda>c. if invalid_sheet_char c then CHR ''-'' else c) '' a/b ?'')
              = ''a-b -''"
    by (simp add: invalid_sheet_char_def strip_def lstrip_def rstrip_def isspace_def)
  have inv: "''[?]'' \<noteq> [] \<and> list_all invalid_sheet_char ''[?]''"
    by (simp add: invalid_sheet_char_def)
  have "strip (map (\<lambda>c. if invalid_sheet_char c then CHR ''-'' else c) '' a/b ?'') \<noteq> []"
    unfolding ev by simp
  then have "sanitize_sheet_name '' a/b ?''
      = take 31 (strip (map (\<lambda>c. if invalid_sheet_char c then CHR ''-'' else c) '' a/b ?''))"
    using sanitize_sheet_name_spec [of "'' a/b ?''"] by blast
  then have a: "sanitize_sheet_name '' a/b ?'' = ''a-b -''"
    unfolding ev by simp
  have b: "sanitize_sheet_name ''  '' = ''sheet''"
    using sanitize_sheet_name_spec [of "''  ''"] sp by blast
  have "sanitize_sheet_name ''[?]'' = replicate (min 31 (length ''[?]'')) CHR ''-''"
    using sanitize_sheet_name_spec [of "''[?]''"] inv by blast
  then have c: "sanitize_sheet_name ''[?]'' = ''---''"
    by (simp add: numeral_eq_Suc)
  have d: "length (sanitize_sheet_name '' a/b ?'') \<le> 31
     \<and> \<not> list_ex invalid_sheet_char (sanitize_sheet_name '' a/b ?'')"
    using sanitize_sheet_name_spec [of "'' a/b ?''"] by blast
  from a b c d show ?thesis by blast
qed

text \<open>
  C5 as stated fails: an input made only of invalid characters does not give the
  placeholder.
\<close>

theorem sanitize_all_invalid_counterexample:
  "list_all invalid_sheet_char ''/?*'' \<and> sanitize_sheet_name ''/?*'' = ''---''
   \<and> sanitize_sheet_name ''/?*'' \<noteq> ''sheet''"
  by (simp add: sanitize_sheet_name_def re_sub_invalid_def invalid_sheet_char_def
      strip_def lstrip_def rstrip_def isspace_def)

text \<open>
  C10 (as amended). A second application of \<open>sanitize_sheet_name\<close> only removes the
  trailing whitespace that the cut to 31 characters may expose: the function is idempotent
  on every input whose sanitized name does not end in whitespace, in particular on every
  input whose trimmed form has at most 31 characters, and from the second application on
  the name no longer changes.
\<close>

theorem sanitize_sheet_name_idempotent:
  "(\<not> isspace (last (sanitize_sheet_name s)) \<longrightarrow>
      sanitize_sheet_name (sanitize_sheet_name s) = sanitize_sheet_name s)
   \<and> (length (strip s) \<le> 31 \<longrightarrow>
      sanitize_sheet_name (sanitize_sheet_name s) = sanitize_sheet_name s)
   \<and> sanitize_sheet_name (sanitize_sheet_name (sanitize_sheet_name s))
      = sanitize_sheet_name (sanitize_sheet_name s)"
proof -
  have a: "sanitize_sheet_name (sanitize_sheet_name s) = sanitize_sheet_name s"
    if "\<not> isspace (last (sanitize_sheet_name s))"
    using that by (simp add: sanitize_twice rstrip_id)
  have b: "\<not> isspace (last (sanitize_sheet_name s))" if len: "length (strip s) \<le> 31"
  proof (cases "list_all isspace s")
    case True
    then show ?thesis by (simp add: sanitize_cases isspace_def)
  next
    case False
    then have ne: "strip (re_sub_invalid s) \<noteq> []"
      by (simp add: strip_Nil_iff re_sub_invalid_spaces)
    have "length (strip (re_sub_invalid s)) \<le> 31"
      using len unfolding strip_re_sub_invalid by (simp add: re_sub_invalid_def)
    then have "sanitize_sheet_name s = strip (re_sub_invalid s)"
      using False by (simp add: sanitize_cases)
    with last_strip [OF ne] show ?thesis by simp
  qed
  have c: "sanitize_sheet_name (sanitize_sheet_name (sanitize_sheet_name s))
      = sanitize_sheet_name (sanitize_sheet_name s)"
  proof -
    have "sanitize_sheet_name (sanitize_sheet_name (sanitize_sheet_name s))
        = rstrip (sanitize_sheet_name (sanitize_sheet_name s))"
      by (rule sanitize_twice)
    also have "\<dots> = rstrip (rstrip (sanitize_sheet_name s))"
      by (simp only: sanitize_twice [of s])
    also have "\<dots> = rstrip (sanitize_sheet_name s)" by (rule rstrip_rstrip)
    also have "\<dots> = sanitize_sheet_name (sanitize_sheet_name s)"
      by (simp only: sanitize_twice [of s])
    finally show ?thesis .
  qed
  from a b c show ?thesis by blast
qed

theorem sanitize_sheet_name_idempotent_witness:
  "sanitize_sheet_name (sanitize_sheet_name '' a/b:c*d '') = sanitize_sheet_name '' a/b:c*d ''
   \<and> sanitize_sheet_name (sanitize_sheet_name ''x[1]'') = sanitize_sheet_name ''x[1]''"
proof -
  have len: "length (strip '' a/b:c*d '') \<le> 31"
    by (simp add: strip_def lstrip_def rstrip_def isspace_def)
  have a: "sanitize_sheet_name (sanitize_sheet_name '' a/b:c*d '')
      = sanitize_sheet_name '' a/b:c*d ''"
    using sanitize_sheet_name_idempotent [of "'' a/b:c*d ''"] len by blast
  have "sanitize_sheet_name ''x[1]'' = ''x-1-''"
    by (simp add: sanitize_sheet_name_def re_sub_invalid_def invalid_sheet_char_def
        strip_def lstrip_def rstrip_def isspace_def)
  then have "\<not> isspace (last (sanitize_sheet_name ''x[1]''))"
    by (simp add: isspace_def)
  then have b: "sanitize_sheet_name (sanitize_sheet_name ''x[1]'') = sanitize_sheet_name ''x[1]''"
    using sanitize_sheet_name_idempotent [of "''x[1]''"] by blast
  from a b show ?thesis by blast
qed

text \<open>
  C10 as stated fails: the cut to 31 characters can leave a trailing space, which the
  second application trims.
\<close>

theorem sanitize_not_idempotent_counterexample:
  "sanitize_sheet_name ''aaaaaaaaaaaaaaaaaaaaaaaaaaaaaa b'' = ''aaaaaaaaaaaaaaaaaaaaaaaaaaaaaa ''
   \<and> sanitize_sheet_name (sanitize_sheet_name ''aaaaaaaaaaaaaaaaaaaaaaaaaaaaaa b'')
       = ''aaaaaaaaaaaaaaaaaaaaaaaaaaaaaa''
   \<and> sanitize_sheet_name (sanitize_sheet_name ''aaaaaaaaaaaaaaaaaaaaaaaaaaaaaa b'')
       \<noteq> sanitize_sheet_name ''aaaaaaaaaaaaaaaaaaaaaaaaaaaaaa b''"
proof -
  have a: "sanitize_sheet_name ''aaaaaaaaaaaaaaaaaaaaaaaaaaaaaa b''
      = ''aaaaaaaaaaaaaaaaaaaaaaaaaaaaaa ''"
    by code_simp
  have b: "sanitize_sheet_name ''aaaaaaaaaaaaaaaaaaaaaaaaaaaaaa '' = ''aaaaaaaaaaaaaaaaaaaaaaaaaaaaaa''"
    by code_simp
  show ?thesis by (simp add: a b)
qed

section \<open>Facts about the table strategy\<close>

lemma max_from_spec:
  "max_from k b xs \<in> set (b # xs) \<and> (\<forall>x \<in> set (b # xs). k x \<le> k (max_from k b xs))"
proof (induction xs arbitrary: b)
  case Nil
  then show ?case by simp
next
  case (Cons y ys)
  let ?b = "if k b < k y then y else b"
  from Cons.IH [of ?b] show ?case by (auto split: if_splits)
qed

lemma py_max_spec:
  assumes "xs \<noteq> []"
  shows "\<exists>b. py_max k xs = Inr b \<and> b \<in> set xs \<and> (\<forall>x \<in> set xs. k x \<le> k b)"
proof -
  from assms obtain y ys where xs: "xs = y # ys" by (cases xs) auto
  from max_from_spec [of k y ys] show ?thesis by (simp add: py_max_def xs)
qed

lemma py_max_Nil: "py_max k [] = Inl ValueError"
  by (simp add: py_max_def)

lemma foldr_max_ge: "2 \<le> foldr max (map length rs) 0 \<longleftrightarrow> list_ex (\<lambda>r. 2 \<le> length r) rs"
  by (induction rs) (auto simp: max_def)

lemma foldr_max_bound: "r \<in> set rs \<Longrightarrow> length r \<le> foldr max (map length rs) 0"
  by (induction rs) (auto simp: max_def)

lemma shape1_DataFrame_rows: "shape1 (DataFrame_rows rs) = foldr max (map length rs) 0"
  by (simp add: shape1_def DataFrame_rows_def Let_def)

lemma take2_padded:
  assumes "r \<noteq> []" "2 \<le> w"
  shows "take 2 (map Some r @ replicate (w - length r) None)
       = [Some (hd r), if 2 \<le> length r then Some (r ! 1) else None]"
proof (cases r)
  case Nil
  with assms show ?thesis by simp
next
  case (Cons a r')
  show ?thesis
  proof (cases r')
    case Nil
    with Cons assms obtain n where "w - length r = Suc n" by (cases "w - length r") auto
    with Cons Nil show ?thesis by simp
  next
    case (Cons b r'')
    with \<open>r = a # r'\<close> show ?thesis by simp
  qed
qed

lemma table_rows_nonempty: "cols \<in> set (table_rows best) \<Longrightarrow> cols \<noteq> []"
  by (simp add: table_rows_def)

lemma iloc_DataFrame_rows:
  assumes "wide_row best"
  shows "iloc_first2 (DataFrame_rows (table_rows best))
       = \<lparr>columns = [Idx 0, Idx 1], rows = table_records best\<rparr>"
proof -
  let ?rs = "table_rows best"
  let ?w = "foldr max (map length ?rs) 0"
  from assms have w: "2 \<le> ?w" by (simp add: foldr_max_ge wide_row_def)
  then have c: "take 2 (map Idx [0..<?w]) = [Idx 0, Idx 1]"
    by (simp add: take_map take_upt numeral_2_eq_2 upt_rec)
  have r: "map (take 2) (map (\<lambda>r. map Some r @ replicate (?w - length r) None) ?rs)
         = table_records best"
    unfolding table_records_def map_map
  proof (rule map_cong [OF refl])
    fix x assume "x \<in> set ?rs"
    then have "x \<noteq> []" by (rule table_rows_nonempty)
    from take2_padded [OF this w]
    show "(take 2 \<circ> (\<lambda>r. map Some r @ replicate (?w - length r) None)) x
        = [Some (hd x), if 2 \<le> length x then Some (x ! 1) else None]"
      by (simp only: o_def)
  qed
  show ?thesis
    by (simp only: iloc_first2_def DataFrame_rows_def Let_def dataframe.select_convs c r)
qed

lemma table_survey_Nil: "find_all [''table''] soup = [] \<Longrightarrow> table_survey soup = Inr None"
  by (simp add: table_survey_def)

lemma table_survey_best:
  assumes "py_max tr_count (find_all [''table''] soup) = Inr best"
  shows "table_survey soup =
           Inr (if wide_row best
                then Some \<lparr>columns = qr_columns, rows = table_records best\<rparr> else None)"
proof -
  from assms have ne: "find_all [''table''] soup \<noteq> []" by (auto simp: py_max_Nil)
  show ?thesis
  proof (cases "wide_row best")
    case True
    then have w: "2 \<le> shape1 (DataFrame_rows (table_rows best))"
      by (simp add: shape1_DataFrame_rows foldr_max_ge wide_row_def)
    show ?thesis
      using True ne assms w
      by (simp add: table_survey_def bind_e_def Let_def iloc_DataFrame_rows
          set_columns_def qr_columns_def)
  next
    case False
    then have w: "\<not> 2 \<le> shape1 (DataFrame_rows (table_rows best))"
      by (simp add: shape1_DataFrame_rows foldr_max_ge wide_row_def)
    show ?thesis
      using False ne assms w by (simp add: table_survey_def bind_e_def Let_def)
  qed
qed

section \<open>Facts about the free-text strategy and the page\<close>

lemma split_colon1_two:
  "has_colon s \<Longrightarrow>
     unpack2 (split_colon1 s)
       = Inr (takeWhile (\<lambda>c. c \<noteq> CHR '':'') s, tl (dropWhile (\<lambda>c. c \<noteq> CHR '':'') s))"
  by (simp add: split_colon1_def unpack2_def has_colon_def)


lemma fallback_items_eq:
  "fallback_items tags
     = Inr (map (\<lambda>s. [strip (takeWhile (\<lambda>c. c \<noteq> CHR '':'') s),
                       strip (tl (dropWhile (\<lambda>c. c \<noteq> CHR '':'') s))])
                (filter has_colon (map (get_text [] False) tags)))"
proof (induction tags)
  case Nil
  show ?case by simp
next
  case (Cons tag tags)
  show ?case
  proof (cases "has_colon (get_text [] False tag)")
    case True
    then have "CHR '':'' \<in> set (get_text [] False tag)" by (simp add: has_colon_def)
    with True Cons.IH show ?thesis
      by (simp add: split_colon1_two bind_e_def)
  next
    case False
    then have "CHR '':'' \<notin> set (get_text [] False tag)" by (simp add: has_colon_def)
    with False Cons.IH show ?thesis by simp
  qed
qed

lemma fallback_survey_eq:
  "fallback_survey soup = Inr \<lparr>columns = qr_columns, rows = spec_free_text_records soup\<rparr>"
proof -
  define items where "items = map (\<lambda>s. [strip (takeWhile (\<lambda>c. c \<noteq> CHR '':'') s),
                       strip (tl (dropWhile (\<lambda>c. c \<noteq> CHR '':'') s))])
                (filter has_colon (map (get_text [] False) (find_all [''p'', ''li''] soup)))"
  have f: "fallback_items (find_all [''p'', ''li''] soup) = Inr items"
    by (simp add: fallback_items_eq items_def)
  have r: "map (map Some) items = spec_free_text_records soup"
    by (simp add: spec_free_text_records_def items_def)
  have a: "list_all (\<lambda>r. length r = length qr_columns) items"
    by (simp add: list_all_iff qr_columns_def items_def)
  show ?thesis
  proof (cases "items = []")
    case True
    with r have "spec_free_text_records soup = []" by simp
    with True f show ?thesis
      by (simp add: fallback_survey_def bind_e_def)
  next
    case False
    with a r f show ?thesis
      by (simp add: fallback_survey_def bind_e_def DataFrame_items_def)
  qed
qed

lemma attach_ids:
  "setitem (setitem (setitem \<lparr>columns = qr_columns, rows = rs\<rparr> (Name ''biosample_id'') b)
                    (Name ''accession_id'') a) (Name ''source_url'') u
     = \<lparr>columns = survey_columns, rows = map (\<lambda>qr. qr @ [b, a, u]) rs\<rparr>"
  by (simp add: setitem_def qr_columns_def survey_columns_def)

lemma parse_from_table:
  assumes "table_survey soup = Inr (Some \<lparr>columns = qr_columns, rows = rs\<rparr>)"
  shows "parse_survey_page soup url
       = Inr \<lparr>columns = survey_columns, rows = map (with_page_ids soup url) rs\<rparr>"
  using assms
  by (simp add: parse_survey_page_def bind_e_def Let_def attach_ids with_page_ids_def)

lemma parse_from_fallback:
  assumes "table_survey soup = Inr None"
  shows "parse_survey_page soup url
       = Inr \<lparr>columns = survey_columns,
              rows = map (with_page_ids soup url) (spec_free_text_records soup)\<rparr>"
  using assms
  by (simp add: parse_survey_page_def bind_e_def Let_def fallback_survey_eq attach_ids
      with_page_ids_def)

lemma table_survey_total:
  "table_survey soup = Inr None
   \<or> (\<exists>best. py_max tr_count (find_all [''table''] soup) = Inr best \<and> wide_row best \<and>
         table_survey soup = Inr (Some \<lparr>columns = qr_columns, rows = table_records best\<rparr>))"
proof (cases "find_all [''table''] soup = []")
  case True
  then show ?thesis by (simp add: table_survey_Nil)
next
  case False
  from py_max_spec [OF False] obtain best
    where b: "py_max tr_count (find_all [''table''] soup) = Inr best" by blast
  from table_survey_best [OF b] b show ?thesis by (cases "wide_row best") auto
qed

section \<open>Claims about parse_survey_page\<close>

lemma rows_nonempty_all: "list_all (\<lambda>cols. cols \<noteq> []) (table_rows best)"
  using table_rows_nonempty by (auto simp: list_all_iff)

lemma one_strategy_total:
  "(\<exists>best. parse_survey_page soup url
        = Inr \<lparr>columns = survey_columns,
               rows = map (with_page_ids soup url) (table_records best)\<rparr>)
   \<or> parse_survey_page soup url
        = Inr \<lparr>columns = survey_columns,
               rows = map (with_page_ids soup url) (spec_free_text_records soup)\<rparr>"
proof -
  from table_survey_total [of soup] show ?thesis
  proof
    assume "table_survey soup = Inr None"
    then show ?thesis by (simp add: parse_from_fallback)
  next
    assume "\<exists>best. py_max tr_count (find_all [''table''] soup) = Inr best \<and> wide_row best \<and>
         table_survey soup = Inr (Some \<lparr>columns = qr_columns, rows = table_records best\<rparr>)"
    then obtain best where
      "table_survey soup = Inr (Some \<lparr>columns = qr_columns, rows = table_records best\<rparr>)"
      by blast
    from parse_from_table [OF this, of url] show ?thesis by blast
  qed
qed

lemma parse_wide:
  assumes "py_max tr_count (find_all [''table''] soup) = Inr best" "wide_row best"
  shows "parse_survey_page soup url
       = Inr \<lparr>columns = survey_columns,
              rows = map (with_page_ids soup url) (table_records best)\<rparr>"
  using table_survey_best [OF assms(1)] assms(2) by (simp add: parse_from_table)

lemma parse_narrow:
  assumes "find_all [''table''] soup = []
           \<or> (\<exists>best. py_max tr_count (find_all [''table''] soup) = Inr best \<and> \<not> wide_row best)"
  shows "parse_survey_page soup url
       = Inr \<lparr>columns = survey_columns,
              rows = map (with_page_ids soup url) (spec_free_text_records soup)\<rparr>"
proof -
  have "table_survey soup = Inr None"
    using assms table_survey_Nil table_survey_best by fastforce
  then show ?thesis by (rule parse_from_fallback)
qed

text \<open>
  C1 (as amended). In the table strategy, rows without cells are dropped. When some row
  of the selected table has at least two cells, every remaining row gives one record,
  its first cell text as question and its second as response, further cells cut off; a
  row with a single cell gives its text as question and a missing response. When no row
  of the selected table has two cells, the table gives nothing.
\<close>

theorem table_extraction_first_two:
  assumes "py_max tr_count (find_all [''table''] soup) = Inr best"
  shows "list_all (\<lambda>cols. cols \<noteq> []) (table_rows best)
       \<and> table_records best
           = map (\<lambda>cols. [Some (hd cols), if 2 \<le> length cols then Some (cols ! 1) else None])
                 (table_rows best)
       \<and> (wide_row best \<longrightarrow>
            parse_survey_page soup url
              = Inr \<lparr>columns = survey_columns,
                     rows = map (with_page_ids soup url) (table_records best)\<rparr>)
       \<and> (\<not> wide_row best \<longrightarrow> table_survey soup = Inr None)"
proof -
  have a: "\<not> wide_row best \<Longrightarrow> table_survey soup = Inr None"
    using table_survey_best [OF assms] by simp
  from rows_nonempty_all parse_wide [OF assms] a show ?thesis
    by (simp add: table_records_def)
qed

theorem table_extraction_first_two_witness:
  "parse_survey_page page_ragged_table ''u''
     = Inr \<lparr>columns = survey_columns,
            rows = map (with_page_ids page_ragged_table ''u'')
                       [[Some ''a'', Some ''b''], [Some ''c'', None]]\<rparr>"
proof -
  have b: "py_max tr_count (find_all [''table''] page_ragged_table) = Inr ragged_table"
    by code_simp
  have w: "wide_row ragged_table" by code_simp
  have r: "table_records ragged_table = [[Some ''a'', Some ''b''], [Some ''c'', None]]"
    by code_simp
  from table_extraction_first_two [OF b, of "''u''"] w
  have "parse_survey_page page_ragged_table ''u''
     = Inr \<lparr>columns = survey_columns,
            rows = map (with_page_ids page_ragged_table ''u'') (table_records ragged_table)\<rparr>"
    by blast
  then show ?thesis by (simp only: r)
qed

text \<open>
  C1 as stated fails: a one-cell row of a table that also has a wider row is kept, as a
  record whose response is missing.
\<close>

theorem table_partial_record_counterexample:
  "parse_survey_page page_ragged_table ''u''
     = Inr \<lparr>columns = survey_columns,
            rows = [[Some ''a'', Some ''b'', Some ''AGP123456'', None, Some ''u''],
                    [Some ''c'', None, Some ''AGP123456'', None, Some ''u'']]\<rparr>"
  by code_simp

text \<open>
  C2. Exactly one strategy contributes the records of a page. Either the document has
  tables, the first one with the most \<open>tr\<close> rows has a row of at least two cells, and
  the records are that table's; or there is no table or the selected one has no such
  row, and the records are those of the free-text strategy.
\<close>

theorem one_strategy_contributes:
  "(\<exists>best. py_max tr_count (find_all [''table''] soup) = Inr best
        \<and> best \<in> set (find_all [''table''] soup)
        \<and> list_all (\<lambda>t. tr_count t \<le> tr_count best) (find_all [''table''] soup)
        \<and> wide_row best
        \<and> parse_survey_page soup url
            = Inr \<lparr>columns = survey_columns,
                   rows = map (with_page_ids soup url) (table_records best)\<rparr>)
   \<or> ((find_all [''table''] soup = []
        \<or> (\<exists>best. py_max tr_count (find_all [''table''] soup) = Inr best \<and> \<not> wide_row best))
       \<and> parse_survey_page soup url
            = Inr \<lparr>columns = survey_columns,
                   rows = map (with_page_ids soup url) (spec_free_text_records soup)\<rparr>)"
proof (cases "find_all [''table''] soup = []")
  case True
  with parse_narrow [of soup url] show ?thesis by blast
next
  case False
  from py_max_spec [OF False, of tr_count] obtain best
    where b: "py_max tr_count (find_all [''table''] soup) = Inr best"
      and m: "best \<in> set (find_all [''table''] soup)"
      and g: "\<forall>t \<in> set (find_all [''table''] soup). tr_count t \<le> tr_count best"
    by blast
  from g have g': "list_all (\<lambda>t. tr_count t \<le> tr_count best) (find_all [''table''] soup)"
    by (simp add: list_all_iff)
  show ?thesis
  proof (cases "wide_row best")
    case True
    from parse_wide [OF b True, of url] b m g' True show ?thesis by blast
  next
    case False
    with b have "\<exists>best. py_max tr_count (find_all [''table''] soup) = Inr best \<and> \<not> wide_row best"
      by blast
    with parse_narrow [of soup url] show ?thesis by blast
  qed
qed

theorem one_strategy_contributes_witness:
  "parse_survey_page page_two_items ''u''
     = Inr \<lparr>columns = survey_columns,
            rows = map (with_page_ids page_two_items ''u'')
                       (spec_free_text_records page_two_items)\<rparr>
   \<and> parse_survey_page page_ragged_table ''u''
     = Inr \<lparr>columns = survey_columns,
            rows = map (with_page_ids page_ragged_table ''u'') (table_records ragged_table)\<rparr>"
proof -
  have n: "find_all [''table''] page_two_items = []" by code_simp
  have a: "parse_survey_page page_two_items ''u''
     = Inr \<lparr>columns = survey_columns,
            rows = map (with_page_ids page_two_items ''u'')
                       (spec_free_text_records page_two_items)\<rparr>"
    using one_strategy_contributes [of page_two_items "''u''"] n
    by (auto simp: py_max_Nil)
  have b: "py_max tr_count (find_all [''table''] page_ragged_table) = Inr ragged_table"
    by code_simp
  have w: "wide_row ragged_table" by code_simp
  have c: "parse_survey_page page_ragged_table ''u''
     = Inr \<lparr>columns = survey_columns,
            rows = map (with_page_ids page_ragged_table ''u'') (table_records ragged_table)\<rparr>"
    using one_strategy_contributes [of page_ragged_table "''u''"] b w
    by (auto simp: py_max_Nil)
  from a c show ?thesis by blast
qed



text \<open>
  C7. \<open>parse_survey_page\<close> never raises. When the document has no table with a row of
  two cells (no table at all, or the selected one has none) and no paragraph or list
  item whose text has a colon, the result has the five columns and no rows.
\<close>

theorem empty_page_gives_empty_table:
  "(\<exists>df. parse_survey_page soup url = Inr df)
   \<and> ((find_all [''table''] soup = []
        \<or> (\<exists>best. py_max tr_count (find_all [''table''] soup) = Inr best \<and> \<not> wide_row best))
       \<and> \<not> list_ex has_colon (map (get_text [] False) (find_all [''p'', ''li''] soup))
       \<longrightarrow> parse_survey_page soup url = Inr \<lparr>columns = survey_columns, rows = []\<rparr>)"
proof -
  have t: "\<exists>df. parse_survey_page soup url = Inr df"
    using one_strategy_total [of soup url] by blast
  have e: "spec_free_text_records soup = []"
    if "\<not> list_ex has_colon (map (get_text [] False) (find_all [''p'', ''li''] soup))"
    using that by (simp add: spec_free_text_records_def list_ex_iff filter_empty_conv)
  from t e parse_narrow [of soup url] show ?thesis by auto
qed

theorem empty_page_gives_empty_table_witness:
  "parse_survey_page page_plain ''u'' = Inr \<lparr>columns = survey_columns, rows = []\<rparr>"
proof -
  have n: "find_all [''table''] page_plain = []" by code_simp
  have c: "\<not> list_ex has_colon (map (get_text [] False) (find_all [''p'', ''li''] page_plain))"
    by code_simp
  from empty_page_gives_empty_table [of page_plain "''u''"] n c show ?thesis by blast
qed

text \<open>
  C8. Every record of the returned table carries the page-level values: the same
  \<open>biosample_id\<close>, the same \<open>accession_id\<close> and the URL, in the third, fourth and fifth
  column.
\<close>

theorem page_ids_uniform:
  "\<exists>df. parse_survey_page soup url = Inr df
        \<and> columns df = survey_columns
        \<and> list_all (\<lambda>rec. length rec = 5
                          \<and> rec ! 2 = page_biosample_id (get_text '' '' True soup)
                          \<and> rec ! 3 = page_accession_id (get_text '' '' True soup)
                          \<and> rec ! 4 = Some url) (rows df)"
proof -
  have i: "length (with_page_ids soup url qr) = 5
         \<and> with_page_ids soup url qr ! 2 = page_biosample_id (get_text '' '' True soup)
         \<and> with_page_ids soup url qr ! 3 = page_accession_id (get_text '' '' True soup)
         \<and> with_page_ids soup url qr ! 4 = Some url" if "length qr = 2" for qr
    using that by (simp add: with_page_ids_def nth_append)
  have t: "list_all (\<lambda>qr. length qr = 2) (table_records best)" for best
    by (simp add: table_records_def list_all_iff)
  have f: "list_all (\<lambda>qr. length qr = 2) (spec_free_text_records soup)"
    by (simp add: spec_free_text_records_def list_all_iff)
  from one_strategy_total [of soup url] obtain rs
    where p: "parse_survey_page soup url
                = Inr \<lparr>columns = survey_columns, rows = map (with_page_ids soup url) rs\<rparr>"
      and l: "list_all (\<lambda>qr. length qr = 2) rs"
    using t f by blast
  from l i have "list_all (\<lambda>rec. length rec = 5
                          \<and> rec ! 2 = page_biosample_id (get_text '' '' True soup)
                          \<and> rec ! 3 = page_accession_id (get_text '' '' True soup)
                          \<and> rec ! 4 = Some url) (map (with_page_ids soup url) rs)"
    by (simp add: list_all_iff)
  with p show ?thesis by simp
qed

theorem page_ids_uniform_witness:
  "\<exists>df. parse_survey_page page_ragged_table ''u'' = Inr df
        \<and> columns df = survey_columns
        \<and> list_all (\<lambda>rec. rec ! 2 = Some ''AGP123456'' \<and> rec ! 3 = None \<and> rec ! 4 = Some ''u'')
                   (rows df)"
proof -
  have b: "page_biosample_id (get_text '' '' True page_ragged_table) = Some ''AGP123456''"
    by code_simp
  have a: "page_accession_id (get_text '' '' True page_ragged_table) = None"
    by code_simp
  from page_ids_uniform [of page_ragged_table "''u''"] show ?thesis
    unfolding a b by (auto simp: list_all_iff)
qed

section \<open>Facts about the identifier patterns\<close>






















section \<open>Claims about identifier extraction\<close>












section \<open>Claims about the batch script and the filter\<close>

lemma main_usage:
  "length argv \<noteq> 3 \<Longrightarrow>
     main argv fs = \<lparr>status = Exited 1, printed = [usage_message], files = fs\<rparr>"
  by (simp add: main_def)

lemma main_two_ids:
  "status (main [''prog'', ''ids.txt'', ''out.csv''] two_ids_fs) = Completed
   \<and> read_ids (''S1'' @ [CHR 0x0A, CHR 0x0A] @ '' S2 '' @ [CHR 0x0D, CHR 0x0A]) = [''S1'', ''S2'']
   \<and> files (main [''prog'', ''ids.txt'', ''out.csv''] two_ids_fs) ''out.csv''
       = Some (to_csv \<lparr>columns = [Name ''biosample_id'', Name ''question'', Name ''response''],
                         rows = [[Some ''S1'', Some ''Diet type'', Some ''Omnivore''],
                                 [Some ''S1'', Some ''Diet type'', Some ''Vegetarian''],
                                 [Some ''S1'', Some ''Diet type'', Some ''Vegan''],
                                 [Some ''S2'', Some ''Diet type'', Some ''Omnivore''],
                                 [Some ''S2'', Some ''Diet type'', Some ''Vegetarian''],
                                 [Some ''S2'', Some ''Diet type'', Some ''Vegan'']]\<rparr>)"
  by code_simp

lemma demo_rows_for_eq:
  "demo_rows_for i rs
     = Inr (map (\<lambda>r. [(''biosample_id'', Some i), (''question'', r ! 1), (''response'', r ! 2)])
                rs)"
  by (induction rs) (simp_all add: row_get_def DEMO_DF_def bind_e_def numeral_2_eq_2)

lemma output_rows_for_eq:
  "output_rows_for ids
     = Inr (concat (map (\<lambda>i. map (\<lambda>r. [(''biosample_id'', Some i), (''question'', r ! 1),
                                         (''response'', r ! 2)]) (rows DEMO_DF)) ids))"
proof (induction ids)
  case Nil
  show ?case by simp
next
  case (Cons i ids)
  from demo_rows_for_eq [of i "rows DEMO_DF"] Cons.IH show ?case by (simp add: bind_e_def)
qed

lemma uniq_from_seen: "set xs \<subseteq> set seen \<Longrightarrow> uniq_from seen xs = []"
  by (induction xs) auto

lemma unique_keys:
  assumes "ds \<noteq> []" "list_all (\<lambda>d. map fst d = [a, b, c]) ds" "distinct [a, b, c]"
  shows "unique (concat (map (map fst) ds)) = [a, b, c]"
proof -
  from assms(1) obtain d ds' where ds: "ds = d # ds'" by (cases ds) auto
  with assms(2) have d: "map fst d = [a, b, c]"
    and r: "set (concat (map (map fst) ds')) \<subseteq> set [c, b, a]"
    by (auto simp: list_all_iff)
  from uniq_from_seen [OF r] assms(3) show ?thesis
    by (auto simp: unique_def ds d)
qed

lemma main_writes_csv:
  assumes "length argv = 3" "fs (argv ! 1) = Some content" "read_ids content \<noteq> []"
  shows "status (main argv fs) = Completed
       \<and> files (main argv fs) (argv ! 2)
           = Some (to_csv
               \<lparr>columns = [Name ''biosample_id'', Name ''question'', Name ''response''],
                rows = concat (map (\<lambda>i. map (\<lambda>r. [Some i, r ! 1, r ! 2]) (rows DEMO_DF))
                                   (read_ids content))\<rparr>)
       \<and> length (concat (map (\<lambda>i. map (\<lambda>r. [Some i, r ! 1, r ! 2]) (rows DEMO_DF))
                              (read_ids content)))
           = length (read_ids content) * length (rows DEMO_DF)"
proof -
  let ?ids = "read_ids content"
  let ?ds = "concat (map (\<lambda>i. map (\<lambda>r. [(''biosample_id'', Some i), (''question'', r ! 1),
                                         (''response'', r ! 2)]) (rows DEMO_DF)) ?ids)"
  have ne: "?ds \<noteq> []" using assms(3) by (cases ?ids) (simp_all add: DEMO_DF_def)
  have ks: "list_all (\<lambda>d. map fst d = [''biosample_id'', ''question'', ''response'']) ?ds"
    by (simp add: list_all_iff)
  have keys: "unique (concat (map (map fst) ?ds)) = [''biosample_id'', ''question'', ''response'']"
    by (rule unique_keys [OF ne ks]) simp
  have df: "DataFrame_dicts ?ds
      = \<lparr>columns = [Name ''biosample_id'', Name ''question'', Name ''response''],
         rows = concat (map (\<lambda>i. map (\<lambda>r. [Some i, r ! 1, r ! 2]) (rows DEMO_DF)) ?ids)\<rparr>"
    unfolding DataFrame_dicts_def Let_def keys
    by (simp add: map_concat o_def)
  have len: "length (concat (map (\<lambda>i. map (\<lambda>r. [Some i, r ! 1, r ! 2]) (rows DEMO_DF)) ?ids))
      = length ?ids * length (rows DEMO_DF)"
  proof -
    have "length (concat (map (\<lambda>i. map (\<lambda>r. [Some i, r ! 1, r ! 2]) (rows DEMO_DF)) xs))
        = length xs * length (rows DEMO_DF)" for xs :: "string list"
      by (induction xs) simp_all
    then show ?thesis .
  qed
  show ?thesis
    using assms(1,2) df len by (simp add: main_def Let_def output_rows_for_eq)
qed

lemma match_atoms_literal: "match_atoms (map Lit p) s \<longleftrightarrow> prefix p s"
proof (induction p arbitrary: s)
  case Nil
  show ?case by simp
next
  case (Cons a p)
  show ?case by (cases s) (auto simp: Cons.IH atom_matches_def)
qed

lemma rx_search_literal: "rx_search (map Lit p) s \<longleftrightarrow> sublist p s"
proof (induction s)
  case Nil
  show ?case by (simp add: match_atoms_literal)
next
  case (Cons c cs)
  show ?case by (simp add: match_atoms_literal Cons.IH sublist_Cons_right)
qed

lemma re_compile_literal:
  "list_all (\<lambda>c. \<not> regex_meta c) p \<Longrightarrow> re_compile p = Inr (map Lit p)"
proof -
  assume a: "list_all (\<lambda>c. \<not> regex_meta c) p"
  have d: "regex_meta CHR ''.''" by (simp add: regex_meta_def)
  from a d have n: "\<forall>c \<in> set p. c \<noteq> CHR ''.''" by (auto simp: list_all_iff)
  from a have "list_all (\<lambda>c. c = CHR ''.'' \<or> \<not> regex_meta c) p"
    by (auto simp: list_all_iff)
  moreover from n have "map (\<lambda>c. if c = CHR ''.'' then AnyChar else Lit c) p = map Lit p"
    by (intro map_cong) auto
  ultimately show ?thesis by (simp add: re_compile_def)
qed

lemma str_contains_literal:
  assumes "list_all (\<lambda>c. \<not> regex_meta c) p"
  shows "str_contains p col
           = Inr (map (\<lambda>c. case c of None \<Rightarrow> False | Some s \<Rightarrow> sublist p s) col)"
  by (simp add: str_contains_def re_compile_literal [OF assms] bind_e_def rx_search_literal
      cong: option.case_cong)

text \<open>
  C4 fails on the code for an input file without identifiers (empty, or blank lines
  only): \<open>pd.DataFrame([])\<close> has no columns, so the file written is a single empty line
  and not the header \<open>biosample_id,question,response\<close>.
\<close>

theorem main_blank_input_no_header:
  "read_ids ([CHR 0x0A] @ ''  '' @ [CHR 0x0A]) = []
   \<and> status (main [''prog'', ''ids.txt'', ''out.csv''] blank_ids_fs) = Completed
   \<and> files (main [''prog'', ''ids.txt'', ''out.csv''] blank_ids_fs) ''out.csv''
       = Some [CHR 0x0A]
   \<and> to_csv \<lparr>columns = [Name ''biosample_id'', Name ''question'', Name ''response''],
                rows = []\<rparr>
       = ''biosample_id,question,response'' @ [CHR 0x0A]"
  by code_simp

text \<open>
  C9 fails on the code for a filter string with a regular-expression metacharacter:
  \<open>str.contains\<close> reads the filter as a pattern, so the filter \<open>.\<close> keeps a row whose
  response \<open>abc\<close> does not contain it.
\<close>

theorem filter_responses_reads_regex:
  "filter_responses one_row_frame ''.'' 1
     = Inr \<lparr>columns = survey_columns @ [Name ''id''],
            rows = [[Some ''Diet'', Some ''abc'', Some ''B1'', None, Some ''u'',
                     Some ''B1__u'']]\<rparr>
   \<and> \<not> sublist (lower ''.'') (lower ''abc'')
   \<and> filter_responses one_row_frame ''x'' 1
     = Inr \<lparr>columns = survey_columns @ [Name ''id''], rows = []\<rparr>"
proof -
  have a: "filter_responses one_row_frame ''.'' 1
     = Inr \<lparr>columns = survey_columns @ [Name ''id''],
            rows = [[Some ''Diet'', Some ''abc'', Some ''B1'', None, Some ''u'',
                     Some ''B1__u'']]\<rparr>"
    by code_simp
  have l: "lower ''.'' = ''.''" "lower ''abc'' = ''abc''" by code_simp+
  have b: "\<not> sublist (lower ''.'') (lower ''abc'')" unfolding l by code_simp
  have c: "filter_responses one_row_frame ''x'' 1
     = Inr \<lparr>columns = survey_columns @ [Name ''id''], rows = []\<rparr>"
    by code_simp
  from a b c show ?thesis by blast
qed

end
